theory Spec2Isabelle
  imports Main "HOL-Library.Sublist" "HOL-Library.AList"
begin

section \<open>Python string operations used by the formatter\<close>

text \<open>
  Strings are \<^typ>\<open>string\<close>, a list of 8-bit characters: the tutorial text is taken as
  ASCII. The functions below are the operations of Python's \<open>str\<close> that
  \<open>format_tutorial_for_paper.py\<close> calls.
\<close>

text \<open>\<open>sub in s\<close>: \<open>sub\<close> occurs in \<open>s\<close> as a contiguous substring.\<close>

fun str_in :: "string \<Rightarrow> string \<Rightarrow> bool" where
  "str_in sub [] = (sub = [])"
| "str_in sub (c # cs) = (prefix sub (c # cs) \<or> str_in sub cs)"

text \<open>
  \<open>s.replace(old, new)\<close>: every occurrence of \<open>old\<close>, found from the left and not
  overlapping, is replaced by \<open>new\<close>; an empty \<open>old\<close> matches before every character and
  at the end.
\<close>

function replace :: "string \<Rightarrow> string \<Rightarrow> string \<Rightarrow> string" where
  "replace old new [] = (if old = [] then new else [])"
| "replace old new (c # cs) =
     (if old = [] then new @ c # replace old new cs
      else if prefix old (c # cs) then new @ replace old new (drop (length old) (c # cs))
      else c # replace old new cs)"
  by pat_completeness auto
termination
  by (relation "measure (\<lambda>(old, new, s). length s)") (auto simp: neq_Nil_conv)

text \<open>\<open>sep.join(xs)\<close>.\<close>

fun join :: "string \<Rightarrow> string list \<Rightarrow> string" where
  "join sep [] = []"
| "join sep [x] = x"
| "join sep (x # y # ys) = x @ sep @ join sep (y # ys)"

text \<open>\<open>c.lower()\<close> on one ASCII character.\<close>

definition lower :: "char \<Rightarrow> char" where
  "lower c = (case map_of (zip ''ABCDEFGHIJKLMNOPQRSTUVWXYZ'' ''abcdefghijklmnopqrstuvwxyz'') c of
                Some d \<Rightarrow> d
              | None \<Rightarrow> c)"

text \<open>\<open>"%s" % n\<close> for a length \<open>n\<close>: its decimal digits.\<close>

fun str_of_nat :: "nat \<Rightarrow> string" where
  "str_of_nat n = (if n < 10 then [''0123456789'' ! n]
                   else str_of_nat (n div 10) @ [''0123456789'' ! (n mod 10)])"

declare str_of_nat.simps [simp del]

section \<open>Regular-expression substitution\<close>

text \<open>
  \<open>re.sub(pattern, repl, s)\<close> scans \<open>s\<close> from the left; where the pattern matches, the
  matched text is replaced and the scan goes on after it, elsewhere the character is kept.
  A pattern is given by its matcher at the head of a string, which returns the replacement
  and the length of the matched text. The two patterns of the source never match the empty
  string.
\<close>

fun re_sub :: "(string \<Rightarrow> (string \<times> nat) option) \<Rightarrow> string \<Rightarrow> string" where
  "re_sub m [] = []"
| "re_sub m (c # cs) =
     (case m (c # cs) of
        None \<Rightarrow> c # re_sub m cs
      | Some (rep, n) \<Rightarrow> rep @ re_sub m (drop (n - 1) cs))"

text \<open>
  Both patterns have the shape \<open>{% kw [class]+ %}\<close>. The class never contains the space,
  so the greedy \<open>+\<close> takes the longest run of class characters and no shorter run can be
  followed by \<open>" %}"\<close>. The matcher returns the run and the length of the tag.
\<close>

definition match_tag :: "string \<Rightarrow> (char \<Rightarrow> bool) \<Rightarrow> string \<Rightarrow> (string \<times> nat) option" where
  "match_tag kw cls s =
     (let p = ''{% '' @ kw @ '' '' in
      if prefix p s then
        (let r = drop (length p) s; name = takeWhile cls r in
         if name \<noteq> [] \<and> prefix '' %}'' (dropWhile cls r)
         then Some (name, length p + length name + 3)
         else None)
      else None)"

text \<open>The class \<open>[a-z\-\_]\<close>.\<close>

definition icon_class :: "char \<Rightarrow> bool" where
  "icon_class c = (c \<in> set ''abcdefghijklmnopqrstuvwxyz-_'')"

text \<open>The class \<open>[a-z0-9\-\_]\<close>.\<close>

definition cite_class :: "char \<Rightarrow> bool" where
  "cite_class c = (c \<in> set ''abcdefghijklmnopqrstuvwxyz0123456789-_'')"

text \<open>\<open>{% icon [a-z\-\_]+ %}[ ]?\<close> replaced by the empty string.\<close>

definition icon_tag :: "string \<Rightarrow> (string \<times> nat) option" where
  "icon_tag s =
     (case match_tag ''icon'' icon_class s of
        None \<Rightarrow> None
      | Some (name, n) \<Rightarrow> Some ([], if prefix '' '' (drop n s) then n + 1 else n))"

text \<open>\<open>{% cite ([a-z0-9\-\_]+) %}\<close> replaced by \<open>[@\g<1>]\<close>.\<close>

definition cite_tag :: "string \<Rightarrow> (string \<times> nat) option" where
  "cite_tag s =
     (case match_tag ''cite'' cite_class s of
        None \<Rightarrow> None
      | Some (key, n) \<Rightarrow> Some (''[@'' @ key @ '']'', n))"

text \<open>\<open>re.search(r'{% icon (question|details|comment|tip|warning) %}', l)\<close>.\<close>

definition box_icon :: "string \<Rightarrow> bool" where
  "box_icon l =
     list_ex (\<lambda>x. str_in (''{% icon '' @ x @ '' %}'') l)
       [''question'', ''details'', ''comment'', ''tip'', ''warning'']"

text \<open>\<open>re.search(r'{:[ ]?\.(question|details|comment|tip|warning|agenda)}', l)\<close>.\<close>

definition box_end :: "string \<Rightarrow> bool" where
  "box_end l =
     list_ex (\<lambda>x. str_in (''{:.'' @ x @ ''}'') l \<or> str_in (''{: .'' @ x @ ''}'') l)
       [''question'', ''details'', ''comment'', ''tip'', ''warning'', ''agenda'']"

text \<open>\<open>re.search(r'{:[ ]?\.no_toc}', l)\<close>.\<close>

definition no_toc :: "string \<Rightarrow> bool" where
  "no_toc l = (str_in ''{:.no_toc}'' l \<or> str_in ''{: .no_toc}'' l)"

section \<open>Metadata\<close>

datatype error = IndexError | UnboundLocalError | ParseError

text \<open>
  The contributor directory: a dictionary from GitHub identifier to a dictionary of
  details, one of which may be \<open>name\<close>.
\<close>

type_synonym contributor_dir = "string \<rightharpoonup> (string \<rightharpoonup> string)"

definition get_author_name :: "string \<Rightarrow> contributor_dir \<Rightarrow> string" where
  "get_author_name author_id contributors =
     (case contributors author_id of
        None \<Rightarrow> author_id
      | Some details \<Rightarrow>
          (case details ''name'' of
             None \<Rightarrow> author_id
           | Some name \<Rightarrow> name))"

text \<open>The front matter of a tutorial, with the fields the formatter reads.\<close>

record yaml_metadata =
  title :: string
  contributors :: "string list"
  questions :: "string list"
  objectives :: "string list"
  time_estimation :: string
  zenodo_link :: string

text \<open>\<open>get_time\<close> falls off its last \<open>elif\<close> and returns \<open>None\<close> when no letter is found.\<close>

definition get_time :: "string \<Rightarrow> string option" where
  "get_time time =
     (if str_in ''h'' time then Some (replace ''h'' '' hours'' time)
      else if str_in ''H'' time then Some (replace ''H'' '' hours'' time)
      else if str_in ''m'' time then Some (replace ''m'' '' minutes'' time)
      else if str_in ''M'' time then Some (replace ''M'' '' minutes'' time)
      else None)"

text \<open>\<open>"%s" % x\<close> for the result of \<open>get_time\<close>.\<close>

definition str_of_time :: "string option \<Rightarrow> string" where
  "str_of_time t = (case t of None \<Rightarrow> ''None'' | Some s \<Rightarrow> s)"

text \<open>
  \<open>s[0].lower() + s[1:]\<close> raises \<open>IndexError\<close> on an empty objective, and so does
  \<open>create_abstract\<close>.
\<close>

definition create_abstract :: "yaml_metadata \<Rightarrow> error + string" where
  "create_abstract metadata =
     (let a = ''<why/aim (1st paragraph of the introduction)>. '' @
              ''This tutorial is developed for the data analysis platform Galaxy. '' @
              ''The Galaxy's concept makes high-throughput sequencing data analysis a '' @
              ''structured, reproducible and transparent process. '';
          a = a @ ''In this tutorial we focus on '' @ str_of_nat (length (questions metadata)) @
              '' questions: '' @ join '' '' (questions metadata) @ '' ''
      in if [] \<in> set (objectives metadata) then Inl IndexError
         else
           (let a = a @ ''After finishing this tutorial you will be able to '' @
                    join '', '' (map (\<lambda>s. lower (hd s) # tl s) (objectives metadata)) @ ''.'';
                a = a @ ''Requirements for this tutorial is a minimal Galaxy experience and '' @
                    ''a Galaxy account on the Galaxy Europe server. '';
                a = a @ ''The estimated duration of this tutorial is around '' @
                    str_of_time (get_time (time_estimation metadata)) @ ''.''
            in Inr a))"

text \<open>
  The metadata for pandoc is a dictionary whose values are strings or lists of strings;
  it is kept as an association list in insertion order.
\<close>

datatype yaml_value = Str string | Seq "string list"

type_synonym metadata = "(string \<times> yaml_value) list"

text \<open>
  \<open>extract_metadata\<close>; the contributor directory is passed as loaded by
  \<open>extract_contributors\<close>. The loop appends one name per contributor.
\<close>

definition extract_metadata :: "yaml_metadata \<Rightarrow> contributor_dir \<Rightarrow> error + metadata" where
  "extract_metadata yaml_metadata contribs =
     (let metadata = [(''title'', Str ''''), (''author'', Seq []), (''abstract'', Str ''''),
                      (''bibliography'', Str ''references.bib'')];
          metadata = AList.update ''title'' (Str (title yaml_metadata)) metadata;
          author = foldl (\<lambda>author c. author @ [get_author_name c contribs]) []
                     (contributors yaml_metadata);
          metadata = AList.update ''author'' (Seq author) metadata
      in case create_abstract yaml_metadata of
           Inl e \<Rightarrow> Inl e
         | Inr abstract \<Rightarrow> Inr (AList.update ''abstract'' (Str abstract) metadata))"

section \<open>Tutorial content\<close>

text \<open>The state of the loop over the lines: the flag and the lines kept so far.\<close>

record loop_state =
  do_not_add_next_lines :: bool
  l_content :: "string list"

text \<open>One turn of the loop of \<open>format_tuto_content\<close>.\<close>

definition format_line :: "loop_state \<Rightarrow> string \<Rightarrow> loop_state" where
  "format_line st l =
     (if str_in ''{% include'' l then st
      else if box_icon l then st\<lparr>do_not_add_next_lines := True\<rparr>
      else if str_in ''### Agenda'' l then st\<lparr>do_not_add_next_lines := True\<rparr>
      else if do_not_add_next_lines st then
        (if box_end l then st\<lparr>do_not_add_next_lines := False\<rparr> else st)
      else if str_in ''{% icon hands_on %}'' l then
        st\<lparr>l_content := l_content st @
             [butlast (replace ''> ### {% icon hands_on %} '' ''***'' l) @ ''***\<newline>'']\<rparr>
      else if str_in ''{: .hands_on}'' l then st
      else if prefix ''> '' l then st\<lparr>l_content := l_content st @ [drop 2 l]\<rparr>
      else if prefix ''>'' l then st
      else if no_toc l then st
      else if str_in ''# Introduction'' l then
        st\<lparr>l_content := l_content st @ [''# Description of the data\<newline>'']\<rparr>
      else st\<lparr>l_content := l_content st @ [l]\<rparr>)"

definition format_lines :: "string list \<Rightarrow> loop_state" where
  "format_lines content =
     foldl format_line \<lparr>do_not_add_next_lines = False, l_content = []\<rparr> content"

definition intro_text :: string where
  "intro_text =
     ''\<newline># Introduction\<newline>\<newline>'' @
     ''<why/aim (1st paragraph of the introduction)>.\<newline>\<newline>'' @
     ''This tutorial provides a detailed workflow for <outputs> from <inputs> using Galaxy.'' @
     ''Galaxy [@afgan2018galaxy] is a data analysis platform that provides access to hundreds'' @
     '' of tools used in a wide variety of analysis scenarios. os. It features a web-based user '' @
     ''interface while automatically and transparently managing underlying computation details. '' @
     ''The Galaxy's concept makes high-throughput sequencing data analysis a structured, '' @
     ''reproducible and transparent process.\<newline>\<newline>'' @
     ''The tutorial starts from <inputs>. It runs first a <overview of each step (1 sentence) of the '' @
     ''workflow with tool names in bold and citation.>\<newline>\<newline>'' @
     ''The entire analysis described this article can be conducted efficiently on any Galaxy server '' @
     ''which has the needed tools. However, to be sure, the authors recommend to use the Galaxy '' @
     ''Europe server (https://usegalaxy.eu/).\<newline>\<newline>'' @
     ''The tutorial presented in this article has been developed by the Galaxy Training Network '' @
     ''[@batut2018community] and is available online at https://training.galaxyproject.org/''"

text \<open>The introduction with the path of the tutorial, as \<open>format_tuto_content\<close> prepares it.\<close>

definition intro :: "string \<Rightarrow> string" where
  "intro tuto_fp = intro_text @ replace ''md'' ''html'' tuto_fp @ ''.\<newline>\<newline>''"

definition ref :: string where
  "ref = ''\<newline># References\<newline>\<newline>''"

text \<open>The string before the three global substitutions.\<close>

definition assemble :: "string list \<Rightarrow> string \<Rightarrow> string" where
  "assemble content tuto_fp = intro tuto_fp @ concat (l_content (format_lines content)) @ ref"

definition format_tuto_content :: "string list \<Rightarrow> yaml_metadata \<Rightarrow> string \<Rightarrow> string" where
  "format_tuto_content content yaml_metadata tuto_fp =
     (let form_content = assemble content tuto_fp;
          form_content = replace ''{{ page.zenodo_link }}'' (zenodo_link yaml_metadata) form_content;
          form_content = re_sub icon_tag form_content;
          form_content = re_sub cite_tag form_content
      in form_content)"

section \<open>The tutorial file\<close>

text \<open>
  The loop \<open>for i, l in enumerate(full_content[1:])\<close> with its \<open>break\<close>: the value of
  \<open>i\<close> after the loop, which is unbound when the loop body never ran.
\<close>

fun last_index :: "nat option \<Rightarrow> nat \<Rightarrow> string list \<Rightarrow> nat option" where
  "last_index i j [] = i"
| "last_index i j (l # ls) =
     (if prefix ''---'' l then Some j else last_index (Some j) (Suc j) ls)"

text \<open>
  \<open>format_tutorial\<close> on the lines read from the tutorial; the result is the text written to
  the formatted file. \<open>yaml.load\<close> and \<open>yaml.dump\<close> belong to the YAML library and are
  parameters.
\<close>

definition format_tutorial ::
  "(string \<Rightarrow> error + yaml_metadata) \<Rightarrow> (metadata \<Rightarrow> string) \<Rightarrow> contributor_dir \<Rightarrow>
   string \<Rightarrow> string list \<Rightarrow> error + string" where
  "format_tutorial yaml_load yaml_dump contribs tuto_fp full_content =
     (case last_index None 0 (drop 1 full_content) of
        None \<Rightarrow> Inl UnboundLocalError
      | Some i \<Rightarrow>
          (case yaml_load (concat (drop 1 (take i full_content))) of
             Inl e \<Rightarrow> Inl e
           | Inr yaml_metadata \<Rightarrow>
               (case extract_metadata yaml_metadata contribs of
                  Inl e \<Rightarrow> Inl e
                | Inr metadata \<Rightarrow>
                    Inr (''---\<newline>'' @ yaml_dump metadata @ ''---\<newline>'' @
                         format_tuto_content (drop (i + 2) full_content) yaml_metadata tuto_fp))))"

section \<open>References\<close>




section \<open>Properties of the metadata extractor\<close>

lemma str_in_single: "str_in [c] s \<longleftrightarrow> c \<in> set s"
  by (induction s) auto

lemma replace_single: "replace [c] new s = concat (map (\<lambda>x. if x = c then new else [x]) s)"
  by (induction s) auto

text \<open>
  C3: \<open>get_time\<close> looks for the letters h, H, m, M in this order and the first one found
  decides: every occurrence of that letter becomes \<open>" hours"\<close> or \<open>" minutes"\<close>, the other
  characters stay. So \<open>"1h"\<close> gives \<open>"1 hours"\<close>, \<open>"30m"\<close> gives \<open>"30 minutes"\<close>, a string
  with both h and m is rewritten by the h branch, and a string with none of the four letters
  gives \<open>None\<close>.
\<close>

theorem get_time_priority:
  "(CHR ''h'' \<in> set t \<longrightarrow>
      get_time t = Some (concat (map (\<lambda>x. if x = CHR ''h'' then '' hours'' else [x]) t))) \<and>
   (CHR ''h'' \<notin> set t \<and> CHR ''H'' \<in> set t \<longrightarrow>
      get_time t = Some (concat (map (\<lambda>x. if x = CHR ''H'' then '' hours'' else [x]) t))) \<and>
   (CHR ''h'' \<notin> set t \<and> CHR ''H'' \<notin> set t \<and> CHR ''m'' \<in> set t \<longrightarrow>
      get_time t = Some (concat (map (\<lambda>x. if x = CHR ''m'' then '' minutes'' else [x]) t))) \<and>
   (CHR ''h'' \<notin> set t \<and> CHR ''H'' \<notin> set t \<and> CHR ''m'' \<notin> set t \<and> CHR ''M'' \<in> set t \<longrightarrow>
      get_time t = Some (concat (map (\<lambda>x. if x = CHR ''M'' then '' minutes'' else [x]) t))) \<and>
   (CHR ''h'' \<notin> set t \<and> CHR ''H'' \<notin> set t \<and> CHR ''m'' \<notin> set t \<and> CHR ''M'' \<notin> set t \<longrightarrow>
      get_time t = None) \<and>
   get_time ''1h'' = Some ''1 hours'' \<and>
   get_time ''30m'' = Some ''30 minutes'' \<and>
   get_time ''1h30m'' = Some ''1 hours30m''"
  by (simp add: get_time_def str_in_single replace_single)

theorem get_time_priority_witness:
  "CHR ''h'' \<in> set ''2h15m'' \<and> get_time ''2h15m'' = Some ''2 hours15m'' \<and>
   CHR ''h'' \<notin> set ''3H'' \<and> CHR ''H'' \<in> set ''3H'' \<and> get_time ''3H'' = Some ''3 hours'' \<and>
   CHR ''m'' \<in> set ''45m'' \<and> get_time ''45m'' = Some ''45 minutes'' \<and>
   CHR ''M'' \<in> set ''20M'' \<and> get_time ''20M'' = Some ''20 minutes'' \<and>
   CHR ''h'' \<notin> set ''90'' \<and> CHR ''H'' \<notin> set ''90'' \<and> CHR ''m'' \<notin> set ''90'' \<and> CHR ''M'' \<notin> set ''90'' \<and>
   get_time ''90'' = None"
  using get_time_priority [of "''2h15m''"] get_time_priority [of "''3H''"]
    get_time_priority [of "''45m''"] get_time_priority [of "''20M''"]
    get_time_priority [of "''90''"]
  by simp








text \<open>
  The dictionary that \<open>extract_metadata\<close> builds has the keys \<open>title\<close>, \<open>author\<close>,
  \<open>abstract\<close>, \<open>bibliography\<close> in this order of insertion, and \<open>bibliography\<close> is always
  \<open>references.bib\<close>. The order in which \<open>yaml.dump\<close> writes them is the library's.
\<close>

lemma extract_metadata_keys:
  "extract_metadata ym contribs = Inr md \<Longrightarrow>
   map fst md = [''title'', ''author'', ''abstract'', ''bibliography''] \<and>
   map_of md ''title'' = Some (Str (title ym)) \<and>
   map_of md ''bibliography'' = Some (Str ''references.bib'')"
  by (auto simp: extract_metadata_def Let_def split: sum.splits)

section \<open>Properties of the substitutions\<close>

lemma match_tag_Some_iff:
  assumes sp: "\<not> cls CHR '' ''"
  shows "match_tag kw cls s = Some (name, n) \<longleftrightarrow>
         name \<noteq> [] \<and> (\<forall>c\<in>set name. cls c) \<and>
         (\<exists>rest. s = ''{% '' @ kw @ '' '' @ name @ '' %}'' @ rest) \<and>
         n = length kw + length name + 7"
proof
  assume m: "match_tag kw cls s = Some (name, n)"
  let ?p = "''{% '' @ kw @ '' ''"
  from m have pre: "prefix ?p s"
    by (simp add: match_tag_def Let_def split: if_splits)
  then obtain r where s: "s = ?p @ r" by (auto simp: prefix_def)
  from m s have nm: "name = takeWhile cls r" "name \<noteq> []" "prefix '' %}'' (dropWhile cls r)"
    and n: "n = length ?p + length name + 3"
    by (auto simp: match_tag_def Let_def split: if_splits)
  from nm(3) obtain rest where d: "dropWhile cls r = '' %}'' @ rest" by (auto simp: prefix_def)
  have "r = name @ '' %}'' @ rest"
    using takeWhile_dropWhile_id [of cls r] nm(1) d by simp
  moreover have "\<forall>c\<in>set name. cls c" using nm(1) by (auto dest: set_takeWhileD)
  ultimately show "name \<noteq> [] \<and> (\<forall>c\<in>set name. cls c) \<and>
         (\<exists>rest. s = ''{% '' @ kw @ '' '' @ name @ '' %}'' @ rest) \<and>
         n = length kw + length name + 7"
    using nm(2) s n by simp
next
  assume a: "name \<noteq> [] \<and> (\<forall>c\<in>set name. cls c) \<and>
         (\<exists>rest. s = ''{% '' @ kw @ '' '' @ name @ '' %}'' @ rest) \<and>
         n = length kw + length name + 7"
  then obtain rest where s: "s = ''{% '' @ kw @ '' '' @ name @ '' %}'' @ rest" by blast
  have tw: "takeWhile cls (name @ '' %}'' @ rest) = name"
    using a sp by (simp add: takeWhile_append2)
  have dw: "dropWhile cls (name @ '' %}'' @ rest) = '' %}'' @ rest"
    using a sp by (simp add: dropWhile_append2)
  show "match_tag kw cls s = Some (name, n)"
    using a tw dw by (simp add: match_tag_def Let_def s)
qed

lemma re_sub_skip:
  "(\<And>c s. c \<in> set T \<Longrightarrow> m (c # s) = None) \<Longrightarrow> re_sub m (T @ X) = T @ re_sub m X"
  by (induction T) auto

lemma re_sub_split:
  assumes stable: "\<And>a. a \<noteq> [] \<Longrightarrow> m (a @ b # R) = m a"
    and inside: "\<And>a rep n. m a = Some (rep, n) \<Longrightarrow> n \<le> length a"
  shows "re_sub m (A @ b # R) = re_sub m A @ re_sub m (b # R)"
proof (induction "length A" arbitrary: A rule: less_induct)
  case less
  show ?case
  proof (cases A)
    case Nil
    then show ?thesis by simp
  next
    case (Cons c cs)
    have st: "m (c # cs @ b # R) = m (c # cs)" using stable [of "c # cs"] by simp
    show ?thesis
    proof (cases "m (c # cs)")
      case None
      then show ?thesis using Cons st less [of cs] by simp
    next
      case (Some x)
      obtain rep n where x: "x = (rep, n)" by (cases x)
      have "n \<le> length (c # cs)" using inside Some x by blast
      then have d: "drop (n - 1) (cs @ b # R) = drop (n - 1) cs @ b # R" by simp
      have "re_sub m (drop (n - 1) cs @ b # R) = re_sub m (drop (n - 1) cs) @ re_sub m (b # R)"
        using Cons by (intro less) simp
      then show ?thesis using Cons st Some x d by simp
    qed
  qed
qed

lemma match_tag_stable:
  assumes sp: "\<not> cls CHR '' ''" and a: "a \<noteq> []" and b: "\<not> cls b" "b \<notin> set (''% }'' @ kw)"
  shows "match_tag kw cls (a @ b # R) = match_tag kw cls a"
proof -
  have "match_tag kw cls (a @ b # R) = Some (name, n) \<longleftrightarrow> match_tag kw cls a = Some (name, n)"
    for name n
  proof
    assume "match_tag kw cls a = Some (name, n)"
    then show "match_tag kw cls (a @ b # R) = Some (name, n)"
      unfolding match_tag_Some_iff [where cls = cls, OF sp] by auto
  next
    assume "match_tag kw cls (a @ b # R) = Some (name, n)"
    then obtain rest where nm: "name \<noteq> []" "\<forall>c\<in>set name. cls c"
      and eq: "a @ b # R = (''{% '' @ kw @ '' '' @ name @ '' %}'') @ rest"
      and n: "n = length kw + length name + 7"
      unfolding match_tag_Some_iff [where cls = cls, OF sp] by auto
    let ?tag = "''{% '' @ kw @ '' '' @ name @ '' %}''"
    from eq obtain us where us:
      "a = ?tag @ us \<and> us @ b # R = rest \<or> a @ us = ?tag \<and> b # R = us @ rest"
      unfolding append_eq_append_conv2 by blast
    then consider
      (inside) vs where "a = ?tag @ vs"
    | (across) "a @ us = ?tag" "us \<noteq> []" "b # R = us @ rest"
      by (cases "us = []") auto
    then show "match_tag kw cls a = Some (name, n)"
    proof cases
      case inside
      then show ?thesis unfolding match_tag_Some_iff [where cls = cls, OF sp] using nm n by auto
    next
      case across
      then obtain us' where "us = b # us'" by (cases us) auto
      then have "?tag = a @ b # us'" using across(1) by simp
      moreover obtain a' where "a = CHR ''{'' # a'" using a calculation by (cases a) auto
      ultimately have "b \<in> set (''% '' @ kw @ '' '' @ name @ '' %}'')"
        by (metis append_Cons in_set_conv_decomp list.inject)
      then show ?thesis using b nm(2) by auto
    qed
  qed
  then show ?thesis
    by (cases "match_tag kw cls (a @ b # R)"; cases "match_tag kw cls a") auto
qed

lemma match_tag_inside:
  "\<not> cls CHR '' '' \<Longrightarrow> match_tag kw cls a = Some (name, n) \<Longrightarrow> n \<le> length a"
  by (auto simp: match_tag_Some_iff [where cls = cls])

lemma match_tag_head: "c \<noteq> CHR ''{'' \<Longrightarrow> match_tag kw cls (c # s) = None"
  by (simp add: match_tag_def)

lemma cite_space: "\<not> cite_class CHR '' ''"
  by (simp add: cite_class_def)

lemma cite_tag_head: "c \<noteq> CHR ''{'' \<Longrightarrow> cite_tag (c # s) = None"
  by (simp add: cite_tag_def match_tag_head)

lemma cite_tag_inside: "cite_tag a = Some (rep, n) \<Longrightarrow> n \<le> length a"
  by (auto simp: cite_tag_def match_tag_inside [where cls = cite_class, OF cite_space] split: option.splits)

lemma cite_tag_stable:
  "a \<noteq> [] \<Longrightarrow> \<not> cite_class b \<Longrightarrow> b \<notin> set ''% }cite'' \<Longrightarrow> cite_tag (a @ b # R) = cite_tag a"
  using match_tag_stable [where cls = cite_class, OF cite_space, of a b "''cite''" R] by (simp add: cite_tag_def)

lemma cite_tag_token:
  "key \<noteq> [] \<Longrightarrow> \<forall>c\<in>set key. cite_class c \<Longrightarrow>
   cite_tag (''{% cite '' @ key @ '' %}'' @ rest) = Some (''[@'' @ key @ '']'', length key + 11)"
proof -
  assume "key \<noteq> []" "\<forall>c\<in>set key. cite_class c"
  then have "match_tag ''cite'' cite_class (''{% cite '' @ key @ '' %}'' @ rest)
             = Some (key, length ''cite'' + length key + 7)"
    unfolding match_tag_Some_iff [where cls = cite_class, OF cite_space] by simp
  then show ?thesis by (simp add: cite_tag_def)
qed

lemma re_sub_match:
  "m (t @ rest) = Some (rep, length t) \<Longrightarrow> t \<noteq> [] \<Longrightarrow> re_sub m (t @ rest) = rep @ re_sub m rest"
  by (cases t) auto

lemma re_sub_cite_token:
  assumes "key \<noteq> []" "\<forall>c\<in>set key. cite_class c"
  shows "re_sub cite_tag (''{% cite '' @ key @ '' %}'' @ post) = ''[@'' @ key @ '']'' @ re_sub cite_tag post"
proof -
  have "cite_tag ((''{% cite '' @ key @ '' %}'') @ post)
        = Some (''[@'' @ key @ '']'', length (''{% cite '' @ key @ '' %}''))"
    using cite_tag_token [OF assms, of post] by simp
  then have "re_sub cite_tag ((''{% cite '' @ key @ '' %}'') @ post) = (''[@'' @ key @ '']'') @ re_sub cite_tag post"
    by (rule re_sub_match) simp
  then show ?thesis by simp
qed

lemma re_sub_cite_brace:
  "re_sub cite_tag (pre @ CHR ''{'' # R) = re_sub cite_tag pre @ re_sub cite_tag (CHR ''{'' # R)"
  by (rule re_sub_split) (auto simp: cite_tag_stable cite_class_def cite_tag_inside)

lemma cite_tag_SomeD:
  assumes "cite_tag s = Some (rep, n)"
  obtains key rest where "key \<noteq> []" "\<forall>c\<in>set key. cite_class c"
    "s = ''{% cite '' @ key @ '' %}'' @ rest" "rep = ''[@'' @ key @ '']''" "n = length key + 11"
proof -
  from assms obtain key where m: "match_tag ''cite'' cite_class s = Some (key, n)"
    and rep: "rep = ''[@'' @ key @ '']''"
    by (auto simp: cite_tag_def split: option.splits)
  from m show ?thesis
    unfolding match_tag_Some_iff [where cls = cite_class, OF cite_space]
    using rep that by auto
qed

lemma cite_class_plain: "cite_class c \<Longrightarrow> c \<noteq> CHR ''['' \<and> c \<noteq> CHR ''{''"
proof -
  have "\<not> cite_class CHR ''[''" "\<not> cite_class CHR ''{''" by (simp_all add: cite_class_def)
  then show "cite_class c \<Longrightarrow> c \<noteq> CHR ''['' \<and> c \<noteq> CHR ''{''" by blast
qed

lemma re_sub_cite_prefix:
  "prefix p (re_sub cite_tag s) \<Longrightarrow> CHR ''['' \<notin> set p \<Longrightarrow> prefix p s"
proof (induction "length s" arbitrary: s p rule: less_induct)
  case less
  show ?case
  proof (cases s)
    case Nil
    then show ?thesis using less.prems by simp
  next
    case (Cons c cs)
    show ?thesis
    proof (cases "cite_tag (c # cs)")
      case None
      show ?thesis
      proof (cases p)
        case Nil
        then show ?thesis by simp
      next
        case (Cons x p')
        then have "x = c" "prefix p' (re_sub cite_tag cs)" "CHR ''['' \<notin> set p'"
          using less.prems None \<open>s = c # cs\<close> by auto
        then have "prefix p' cs" using less.hyps [of cs p'] \<open>s = c # cs\<close> by simp
        then show ?thesis using Cons \<open>x = c\<close> \<open>s = c # cs\<close> by simp
      qed
    next
      case (Some x)
      obtain rep n where x: "x = (rep, n)" by (cases x)
      from Some x have "cite_tag (c # cs) = Some (rep, n)" by simp
      then obtain key rest where "key \<noteq> []" "\<forall>c\<in>set key. cite_class c"
        "c # cs = ''{% cite '' @ key @ '' %}'' @ rest" "rep = ''[@'' @ key @ '']''" "n = length key + 11"
        by (rule cite_tag_SomeD)
      then have "re_sub cite_tag s = CHR ''['' # CHR ''@'' # key @ '']'' @ re_sub cite_tag (drop (n - 1) cs)"
        using Some x Cons by simp
      then have "p = []" using less.prems by (cases p) auto
      then show ?thesis by simp
    qed
  qed
qed

lemma re_sub_cite_idem: "re_sub cite_tag (re_sub cite_tag s) = re_sub cite_tag s"
proof (induction "length s" arbitrary: s rule: less_induct)
  case less
  show ?case
  proof (cases s)
    case Nil
    then show ?thesis by simp
  next
    case (Cons c cs)
    show ?thesis
    proof (cases "cite_tag (c # cs)")
      case None
      have "cite_tag (c # re_sub cite_tag cs) = None"
      proof (rule ccontr)
        assume "cite_tag (c # re_sub cite_tag cs) \<noteq> None"
        then obtain rep n where "cite_tag (c # re_sub cite_tag cs) = Some (rep, n)" by auto
        then obtain key rest where key: "key \<noteq> []" "\<forall>c\<in>set key. cite_class c"
          and eq: "c # re_sub cite_tag cs = ''{% cite '' @ key @ '' %}'' @ rest"
          and "rep = ''[@'' @ key @ '']''" "n = length key + 11"
          by (rule cite_tag_SomeD)
        let ?tag = "''{% cite '' @ key @ '' %}''"
        have "prefix ?tag (re_sub cite_tag (c # cs))"
          using eq None by (simp add: prefix_def)
        moreover have "CHR ''['' \<notin> set ?tag"
        proof -
          have "CHR ''['' \<notin> set key" using key(2) cite_class_plain by blast
          then show ?thesis by simp
        qed
        ultimately have "prefix ?tag (c # cs)" by (rule re_sub_cite_prefix)
        then obtain rest' where "c # cs = ?tag @ rest'" by (auto simp: prefix_def)
        then have "cite_tag (c # cs) \<noteq> None"
          using cite_tag_token [OF key, of rest'] by simp
        then show False using None by simp
      qed
      then show ?thesis using None Cons less [of cs] by simp
    next
      case (Some x)
      obtain rep n where x: "x = (rep, n)" by (cases x)
      from Some x have "cite_tag (c # cs) = Some (rep, n)" by simp
      then obtain key rest where key: "key \<noteq> []" "\<forall>c\<in>set key. cite_class c"
        and s: "c # cs = ''{% cite '' @ key @ '' %}'' @ rest"
        and "rep = ''[@'' @ key @ '']''" "n = length key + 11"
        by (rule cite_tag_SomeD)
      have r: "re_sub cite_tag s = (''[@'' @ key @ '']'') @ re_sub cite_tag rest"
        using re_sub_cite_token [OF key, of rest] s Cons by simp
      have "cite_tag (d # u) = None" if "d \<in> set (''[@'' @ key @ '']'')" for d u
      proof -
        have "d \<noteq> CHR ''{''" using that key(2) cite_class_plain by auto
        then show ?thesis by (rule cite_tag_head)
      qed
      then have "re_sub cite_tag ((''[@'' @ key @ '']'') @ re_sub cite_tag rest)
            = (''[@'' @ key @ '']'') @ re_sub cite_tag (re_sub cite_tag rest)"
        by (rule re_sub_skip)
      moreover have "length rest < length s"
      proof -
        have "length (c # cs) = length (''{% cite '' @ key @ '' %}'' @ rest)" using s by simp
        then show ?thesis using Cons by simp
      qed
      ultimately show ?thesis using r less [of rest] by simp
    qed
  qed
qed

text \<open>
  C5: the citation substitution turns a tag \<open>{% cite key %}\<close>, whose key is a non-empty
  word of lower-case letters, digits, hyphens and underscores, into \<open>[@key]\<close> with the same
  key, wherever the tag stands in the text; and substituting a second time changes nothing.
\<close>

theorem cite_rewrite_idempotent:
  "(key \<noteq> [] \<and> (\<forall>c\<in>set key. cite_class c) \<longrightarrow>
      re_sub cite_tag (pre @ ''{% cite '' @ key @ '' %}'' @ post) =
      re_sub cite_tag pre @ ''[@'' @ key @ '']'' @ re_sub cite_tag post) \<and>
   re_sub cite_tag (re_sub cite_tag s) = re_sub cite_tag s"
proof (intro conjI impI)
  assume key: "key \<noteq> [] \<and> (\<forall>c\<in>set key. cite_class c)"
  have "re_sub cite_tag (pre @ CHR ''{'' # ''% cite '' @ key @ '' %}'' @ post) =
        re_sub cite_tag pre @ re_sub cite_tag (CHR ''{'' # ''% cite '' @ key @ '' %}'' @ post)"
    by (rule re_sub_cite_brace)
  then show "re_sub cite_tag (pre @ ''{% cite '' @ key @ '' %}'' @ post) =
      re_sub cite_tag pre @ ''[@'' @ key @ '']'' @ re_sub cite_tag post"
    using re_sub_cite_token [of key post] key by simp
next
  show "re_sub cite_tag (re_sub cite_tag s) = re_sub cite_tag s" by (rule re_sub_cite_idem)
qed

theorem cite_rewrite_idempotent_witness:
  "''galaxy_2018'' \<noteq> [] \<and> list_all cite_class ''galaxy_2018'' \<and>
   re_sub cite_tag (''See {% cite a-b %} and '' @ ''{% cite '' @ ''galaxy_2018'' @ '' %}'' @ '' or {% cite X %}.'')
     = ''See [@a-b] and [@galaxy_2018] or {% cite X %}.'' \<and>
   re_sub cite_tag ''See [@a-b] and [@galaxy_2018] or {% cite X %}.''
     = ''See [@a-b] and [@galaxy_2018] or {% cite X %}.''"
  using cite_rewrite_idempotent [of "''galaxy_2018''" "''See {% cite a-b %} and ''" "'' or {% cite X %}.''"
      "''See {% cite a-b %} and {% cite galaxy_2018 %} or {% cite X %}.''"]
  by (simp add: cite_tag_def match_tag_def cite_class_def)











section \<open>Properties of the reference aggregator\<close>




section \<open>Properties of the content filter\<close>

lemma format_line_open:
  "box_icon l \<Longrightarrow> \<not> str_in ''{% include'' l \<Longrightarrow>
   format_line st l = st\<lparr>do_not_add_next_lines := True\<rparr>"
  by (simp add: format_line_def)

lemma format_line_close:
  "do_not_add_next_lines st \<Longrightarrow>
   box_end c \<and> \<not> str_in ''{% include'' c \<and> \<not> box_icon c \<and> \<not> str_in ''### Agenda'' c \<Longrightarrow>
   format_line st c = st\<lparr>do_not_add_next_lines := False\<rparr>"
  by (simp add: format_line_def)

lemma format_line_inside:
  "do_not_add_next_lines st \<Longrightarrow>
   \<not> (box_end x \<and> \<not> str_in ''{% include'' x \<and> \<not> box_icon x \<and> \<not> str_in ''### Agenda'' x) \<Longrightarrow>
   format_line st x = st"
  by (auto simp: format_line_def)

lemma format_lines_inside:
  "do_not_add_next_lines st \<Longrightarrow>
   \<forall>x\<in>set mid. \<not> (box_end x \<and> \<not> str_in ''{% include'' x \<and> \<not> box_icon x \<and> \<not> str_in ''### Agenda'' x) \<Longrightarrow>
   foldl format_line st mid = st"
  by (induction mid) (simp_all add: format_line_inside)

text \<open>
  C1: a line that matches an icon tag for question, details, comment, tip or warning and
  holds no include tag sets the flag. The flag stays set, and nothing is kept, up to the
  first later line that holds a closing annotation and neither an include tag, one of these
  icon tags nor an Agenda heading: that line clears the flag and is dropped too. So the
  kept lines are those kept before the icon line followed by those kept after the closing
  line.
\<close>

theorem box_suppressed:
  assumes "box_icon l" "\<not> str_in ''{% include'' l"
    and "\<forall>x\<in>set mid. \<not> (box_end x \<and> \<not> str_in ''{% include'' x \<and> \<not> box_icon x \<and>
                             \<not> str_in ''### Agenda'' x)"
    and "box_end c \<and> \<not> str_in ''{% include'' c \<and> \<not> box_icon c \<and> \<not> str_in ''### Agenda'' c"
  shows "(\<forall>j\<le>length mid. format_lines (pre @ l # take j mid) =
            (format_lines pre)\<lparr>do_not_add_next_lines := True\<rparr>) \<and>
         format_lines (pre @ l # mid @ [c]) = (format_lines pre)\<lparr>do_not_add_next_lines := False\<rparr> \<and>
         format_lines (pre @ l # mid @ c # post) =
           foldl format_line ((format_lines pre)\<lparr>do_not_add_next_lines := False\<rparr>) post"
proof -
  let ?st = "(format_lines pre)\<lparr>do_not_add_next_lines := True\<rparr>"
  have op: "format_lines (pre @ [l]) = ?st"
    using assms(1,2) by (simp add: format_lines_def format_line_open)
  have ins: "foldl format_line ?st ys = ?st" if "set ys \<subseteq> set mid" for ys
    using that assms(3) by (intro format_lines_inside) auto
  have a: "format_lines (pre @ l # take j mid) = ?st" for j
  proof -
    have "format_lines (pre @ l # take j mid) = foldl format_line (format_lines (pre @ [l])) (take j mid)"
      by (simp add: format_lines_def)
    then show ?thesis using op ins [of "take j mid"] by (simp add: set_take_subset)
  qed
  have m: "format_lines (pre @ l # mid) = ?st" using a [of "length mid"] by simp
  have b: "format_lines (pre @ l # mid @ [c]) = (format_lines pre)\<lparr>do_not_add_next_lines := False\<rparr>"
  proof -
    have "format_lines (pre @ l # mid @ [c]) = format_line (format_lines (pre @ l # mid)) c"
      by (simp add: format_lines_def)
    then show ?thesis using m format_line_close [of ?st c] assms(4) by simp
  qed
  have "format_lines (pre @ l # mid @ c # post) = foldl format_line (format_lines (pre @ l # mid @ [c])) post"
    by (simp add: format_lines_def)
  then show ?thesis using a b by simp
qed

theorem box_suppressed_counterexample:
  "box_icon ''> ### {% icon tip %} Tip {% include x.md %}\<newline>'' \<and> box_end ''{: .tip}\<newline>'' \<and>
   format_lines [''> ### {% icon tip %} Tip {% include x.md %}\<newline>'', ''> text\<newline>'',
                 ''{: .tip}\<newline>'']
     = \<lparr>do_not_add_next_lines = False, l_content = [''text\<newline>'', ''{: .tip}\<newline>'']\<rparr> \<and>
   box_icon ''> ### {% icon tip %} Tip\<newline>'' \<and> box_end ''{: .tip} {% include x.md %}\<newline>'' \<and>
   format_lines [''> ### {% icon tip %} Tip\<newline>'', ''> text\<newline>'',
                 ''{: .tip} {% include x.md %}\<newline>'']
     = \<lparr>do_not_add_next_lines = True, l_content = []\<rparr>"
  by (simp add: format_lines_def format_line_def box_icon_def box_end_def no_toc_def)

theorem box_suppressed_witness:
  "box_icon ''> ### {% icon tip %} Tip\<newline>'' \<and>
   \<not> str_in ''{% include'' ''> ### {% icon tip %} Tip\<newline>'' \<and>
   \<not> box_end ''> text\<newline>'' \<and>
   box_end ''{: .tip}\<newline>'' \<and> \<not> str_in ''{% include'' ''{: .tip}\<newline>'' \<and>
   \<not> box_icon ''{: .tip}\<newline>'' \<and> \<not> str_in ''### Agenda'' ''{: .tip}\<newline>'' \<and>
   format_lines ([''Before\<newline>''] @ ''> ### {% icon tip %} Tip\<newline>'' # [''> text\<newline>''] @
                 [''{: .tip}\<newline>''])
     = \<lparr>do_not_add_next_lines = False, l_content = [''Before\<newline>'']\<rparr> \<and>
   format_lines ([''Before\<newline>''] @ ''> ### {% icon tip %} Tip\<newline>'' # [''> text\<newline>''] @
                 ''{: .tip}\<newline>'' # [''After\<newline>''])
     = \<lparr>do_not_add_next_lines = False, l_content = [''Before\<newline>'', ''After\<newline>'']\<rparr>"
  using box_suppressed [of "''> ### {% icon tip %} Tip\<newline>''" "[''> text\<newline>'']"
      "''{: .tip}\<newline>''" "[''Before\<newline>'']" "[''After\<newline>'']"]
  by (simp add: format_lines_def format_line_def box_icon_def box_end_def no_toc_def)










text \<open>
  C9: the path put into the introduction is the path of the tutorial with every \<open>md\<close>
  replaced by \<open>html\<close>, not only its extension: for a tutorial in a directory
  \<open>md-simulation\<close> the directory is renamed too.
\<close>

theorem intro_path_not_extension:
  "intro ''topics/chemistry/tutorials/md-simulation/tutorial.md'' =
     intro_text @ ''topics/chemistry/tutorials/html-simulation/tutorial.html'' @ ''.\<newline>\<newline>'' \<and>
   intro ''topics/chemistry/tutorials/md-simulation/tutorial.md'' \<noteq>
     intro_text @ ''topics/chemistry/tutorials/md-simulation/tutorial.html'' @ ''.\<newline>\<newline>''"
  by (simp add: intro_def)

section \<open>Properties of the tutorial file\<close>

lemma last_index_first:
  "i < length ys \<Longrightarrow> prefix ''---'' (ys ! i) \<Longrightarrow> \<forall>j<i. \<not> prefix ''---'' (ys ! j) \<Longrightarrow>
   last_index acc n ys = Some (n + i)"
proof (induction ys arbitrary: acc n i)
  case Nil
  then show ?case by simp
next
  case (Cons y ys)
  show ?case
  proof (cases i)
    case 0
    then show ?thesis using Cons.prems by simp
  next
    case (Suc i')
    have "\<not> prefix ''---'' y" using Cons.prems(3) Suc by auto
    moreover have "last_index (Some n) (Suc n) ys = Some (Suc n + i')"
      using Cons.prems Suc by (intro Cons.IH) auto
    ultimately show ?thesis using Suc by simp
  qed
qed

lemma slice_nth: "b \<le> length xs \<Longrightarrow> drop a (take b xs) = map (\<lambda>j. xs ! j) [a..<b]"
  by (rule nth_equalityI) auto

text \<open>
  C10: when the first line starting with \<open>---\<close> after line 1 is line \<open>k\<close> (counting
  from 1), the text given to \<open>yaml.load\<close> is made of the lines 2 to \<open>k - 2\<close>: line
  \<open>k - 1\<close>, the last line of the front matter, is left out. The content that is formatted
  starts at line \<open>k + 1\<close>.
\<close>

theorem front_matter_lines:
  assumes "2 \<le> k" "k \<le> length full_content" "prefix ''---'' (full_content ! (k - 1))"
    and "\<forall>j. 1 \<le> j \<and> j < k - 1 \<longrightarrow> \<not> prefix ''---'' (full_content ! j)"
  shows "format_tutorial yaml_load yaml_dump contribs tuto_fp full_content =
    (case yaml_load (concat (map (\<lambda>j. full_content ! j) [1..<k - 2])) of
       Inl e \<Rightarrow> Inl e
     | Inr yaml_metadata \<Rightarrow>
         (case extract_metadata yaml_metadata contribs of
            Inl e \<Rightarrow> Inl e
          | Inr metadata \<Rightarrow>
              Inr (''---\<newline>'' @ yaml_dump metadata @ ''---\<newline>'' @
                   format_tuto_content (drop k full_content) yaml_metadata tuto_fp)))"
proof -
  obtain i where k: "k = i + 2" using assms(1) by (metis add.commute le_Suc_ex)
  have "last_index None 0 (drop 1 full_content) = Some (0 + i)"
  proof (rule last_index_first)
    show "i < length (drop 1 full_content)" using assms(2) k by simp
    show "prefix ''---'' (drop 1 full_content ! i)" using assms(2,3) k by simp
    show "\<forall>j<i. \<not> prefix ''---'' (drop 1 full_content ! j)" using assms(2,4) k by simp
  qed
  moreover have "drop 1 (take i full_content) = map (\<lambda>j. full_content ! j) [1..<i]"
    using assms(2) k by (intro slice_nth) simp
  ultimately show ?thesis unfolding format_tutorial_def k by simp
qed

theorem front_matter_lines_witness:
  "(let full_content = [''---\<newline>'', ''title: T\<newline>'', ''zenodo_link: z\<newline>'', ''---\<newline>'',
                        ''Text\<newline>''];
        load = (\<lambda>s. if s = ''title: T\<newline>'' then Inr \<lparr>title = ''T'', contributors = [], questions = [],
                        objectives = [], time_estimation = ''1h'', zenodo_link = ''z''\<rparr>
                     else Inl ParseError)
    in (2::nat) \<le> 4 \<and> 4 \<le> length full_content \<and> prefix ''---'' (full_content ! (4 - 1)) \<and>
       \<not> prefix ''---'' (full_content ! 1) \<and> \<not> prefix ''---'' (full_content ! 2) \<and>
       concat (map (\<lambda>j. full_content ! j) [1..<4 - 2]) = ''title: T\<newline>'' \<and>
       drop 4 full_content = [''Text\<newline>''] \<and>
       (\<exists>out. format_tutorial load (\<lambda>md. ''dumped\<newline>'') Map.empty ''tutorial.md'' full_content = Inr out))"
proof -
  let ?full = "[''---\<newline>'', ''title: T\<newline>'', ''zenodo_link: z\<newline>'', ''---\<newline>'', ''Text\<newline>'']"
  have h: "\<forall>j. 1 \<le> j \<and> j < (4::nat) - 1 \<longrightarrow> \<not> prefix ''---'' (?full ! j)"
  proof (intro allI impI)
    fix j :: nat assume "1 \<le> j \<and> j < 4 - 1"
    then have "j = 1 \<or> j = 2" by arith
    then show "\<not> prefix ''---'' (?full ! j)" by auto
  qed
  have u: "[Suc 0..<2] = [Suc 0]" by (simp add: upt_rec)
  show ?thesis
    using front_matter_lines [of 4 ?full, OF _ _ _ h]
    by (simp add: Let_def extract_metadata_def create_abstract_def u)
qed

end
